theory Spec2Isabelle
  imports Main "HOL-Library.Word" "HOL-Library.Sublist" "HOL-Library.Multiset"
begin

section \<open>JavaScript strings\<close>

text \<open>
  A JavaScript string is a sequence of 16-bit code units. \<open>String.prototype.trim\<close>
  removes the ECMAScript WhiteSpace and LineTerminator code points from both ends; all
  of them lie in the Basic Multilingual Plane, so trimming works code unit by code unit.
\<close>

type_synonym code_unit = "16 word"
type_synonym jsstring = "code_unit list"

definition white_space :: "code_unit \<Rightarrow> bool" where
  "white_space c \<longleftrightarrow>
     c = 0x0009 \<or> c = 0x000A \<or> c = 0x000B \<or> c = 0x000C \<or> c = 0x000D \<or> c = 0x0020 \<or>
     c = 0x00A0 \<or> c = 0x1680 \<or> (0x2000 \<le> c \<and> c \<le> 0x200A) \<or> c = 0x2028 \<or>
     c = 0x2029 \<or> c = 0x202F \<or> c = 0x205F \<or> c = 0x3000 \<or> c = 0xFEFF"

definition trimStart :: "jsstring \<Rightarrow> jsstring" where
  "trimStart s = dropWhile white_space s"

definition trimEnd :: "jsstring \<Rightarrow> jsstring" where
  "trimEnd s = rev (dropWhile white_space (rev s))"

definition trim :: "jsstring \<Rightarrow> jsstring" where
  "trim s = trimEnd (trimStart s)"

text \<open>
  The decimal rendering of an integral number inside a template literal
  (\<open>`${Date.now()}`\<close>): digits, with a leading minus sign below zero.
\<close>

fun digits :: "nat \<Rightarrow> jsstring" where
  "digits n =
     (if n < 10 then [of_nat (48 + n)]
      else digits (n div 10) @ [of_nat (48 + n mod 10)])"

declare digits.simps [simp del]

definition number_toString :: "int \<Rightarrow> jsstring" where
  "number_toString i = (if i < 0 then 0x2D # digits (nat (- i)) else digits (nat i))"

text \<open>
  \<open>Array.prototype.map\<close> hands its callback the element and the element's index.
  The index identifies the moment at which the callback runs for that element.
\<close>

fun map_from :: "nat \<Rightarrow> (nat \<Rightarrow> 'a \<Rightarrow> 'b) \<Rightarrow> 'a list \<Rightarrow> 'b list" where
  "map_from k f [] = []"
| "map_from k f (x # xs) = f k x # map_from (Suc k) f xs"

definition array_map :: "(nat \<Rightarrow> 'a \<Rightarrow> 'b) \<Rightarrow> 'a list \<Rightarrow> 'b list" where
  "array_map f xs = map_from 0 f xs"

section \<open>Data model of \<open>App.tsx\<close>\<close>

datatype Filter = Filter_all | Filter_active | Filter_completed

record todo =
  id_todo :: jsstring
  title :: jsstring
  completed :: bool
  createdAt :: int
  updatedAt :: "int option"

text \<open>The component's state: the five \<open>useState\<close> cells.\<close>

record app =
  todos :: "todo list"
  filter_mode :: Filter
  isModalVisible :: bool
  currentTitle :: jsstring
  editingId :: "jsstring option"

definition init :: app where
  "init = \<lparr>todos = [], filter_mode = Filter_all, isModalVisible = False,
            currentTitle = [], editingId = None\<rparr>"

text \<open>
  What a handler hands back: its return value (every handler of the component returns
  \<open>undefined\<close>) and the error notice it raises with \<open>Alert.alert\<close>, if any. The
  source raises one notice only, \<open>'Empty title'\<close>; \<open>NotFound\<close> belongs to the
  documented error taxonomy and no handler produces it. The confirmation prompts of
  \<open>deleteTodo\<close> and \<open>clearCompleted\<close> are not notices: the user's answer to them
  is an input of the handler.
\<close>

datatype error = EmptyTitle | NotFound

datatype jsval = Undefined | Number int

record outcome =
  returned :: jsval
  alert :: "error option"

definition silent :: outcome where
  "silent = \<lparr>returned = Undefined, alert = None\<rparr>"

text \<open>
  What a call of \<open>saveTodo\<close> reads from its environment: the clock while the id is
  built, the random suffix \<open>Math.random().toString(36).slice(2, 8)\<close>, the clock for
  \<open>createdAt\<close>, and the clock as read by the \<open>map\<close> callback at each index.
\<close>

record env =
  id_now :: int
  random36 :: jsstring
  created_now :: int
  updated_now :: "nat \<Rightarrow> int"

datatype platform = Web | Native

section \<open>The handlers\<close>

text \<open>\<open>filteredTodos\<close>: the memoised projection of \<open>todos\<close> under \<open>filter\<close>.\<close>

definition filteredTodos :: "Filter \<Rightarrow> todo list \<Rightarrow> todo list" where
  "filteredTodos f ts =
     (case f of
        Filter_active \<Rightarrow> filter (\<lambda>t. \<not> completed t) ts
      | Filter_completed \<Rightarrow> filter (\<lambda>t. completed t) ts
      | Filter_all \<Rightarrow> ts)"

definition openAddModal :: "app \<Rightarrow> app" where
  "openAddModal s = s\<lparr>editingId := None, currentTitle := [], isModalVisible := True\<rparr>"

definition openEditModal :: "jsstring \<Rightarrow> app \<Rightarrow> app" where
  "openEditModal i s =
     (case find (\<lambda>x. id_todo x = i) (todos s) of
        None \<Rightarrow> s
      | Some t \<Rightarrow> s\<lparr>editingId := Some i, currentTitle := title t, isModalVisible := True\<rparr>)"

text \<open>
  \<open>if (editingId)\<close> tests truthiness: \<open>null\<close> and the empty string are both falsy.
\<close>

definition truthy :: "jsstring option \<Rightarrow> bool" where
  "truthy e = (case e of None \<Rightarrow> False | Some i \<Rightarrow> i \<noteq> [])"

definition new_id :: "env \<Rightarrow> jsstring" where
  "new_id v = number_toString (id_now v) @ [0x2D] @ random36 v"

definition newTodo :: "env \<Rightarrow> jsstring \<Rightarrow> todo" where
  "newTodo v ttl =
     \<lparr>id_todo = new_id v, title = ttl, completed = False, createdAt = created_now v,
      updatedAt = None\<rparr>"

definition saveTodo :: "env \<Rightarrow> app \<Rightarrow> outcome \<times> app" where
  "saveTodo v s =
     (let ttl = trim (currentTitle s) in
      if ttl = [] then (\<lparr>returned = Undefined, alert = Some EmptyTitle\<rparr>, s)
      else
        let s' =
          (if truthy (editingId s) then
             s\<lparr>todos := array_map
                  (\<lambda>k t. if Some (id_todo t) = editingId s
                         then t\<lparr>title := ttl, updatedAt := Some (updated_now v k)\<rparr> else t)
                  (todos s)\<rparr>
           else s\<lparr>todos := newTodo v ttl # todos s\<rparr>)
        in (silent, s'\<lparr>isModalVisible := False, currentTitle := [], editingId := None\<rparr>))"

definition toggleComplete :: "(nat \<Rightarrow> int) \<Rightarrow> jsstring \<Rightarrow> app \<Rightarrow> outcome \<times> app" where
  "toggleComplete now i s =
     (silent,
      s\<lparr>todos := array_map
           (\<lambda>k t. if id_todo t = i
                  then t\<lparr>completed := \<not> completed t, updatedAt := Some (now k)\<rparr> else t)
           (todos s)\<rparr>)"

text \<open>
  \<open>deleteTodo\<close> asks for confirmation, with \<open>confirm\<close> on the web and with an alert
  elsewhere; \<open>ok\<close> is the user's answer.
\<close>

definition performDelete :: "jsstring \<Rightarrow> app \<Rightarrow> app" where
  "performDelete i s = s\<lparr>todos := filter (\<lambda>t. id_todo t \<noteq> i) (todos s)\<rparr>"

definition deleteTodo :: "platform \<Rightarrow> bool \<Rightarrow> jsstring \<Rightarrow> app \<Rightarrow> outcome \<times> app" where
  "deleteTodo p ok i s =
     (case p of
        Web \<Rightarrow> (silent, if ok then performDelete i s else s)
      | Native \<Rightarrow> (silent, if ok then performDelete i s else s))"

definition clearCompleted :: "platform \<Rightarrow> bool \<Rightarrow> app \<Rightarrow> outcome \<times> app" where
  "clearCompleted p ok s =
     (let anyCompleted = list_ex (\<lambda>t. completed t) (todos s) in
      if \<not> anyCompleted then (silent, s)
      else
        (case p of
           Web \<Rightarrow>
             (silent, if ok then s\<lparr>todos := filter (\<lambda>t. \<not> completed t) (todos s)\<rparr> else s)
         | Native \<Rightarrow>
             (silent, if ok then s\<lparr>todos := filter (\<lambda>t. \<not> completed t) (todos s)\<rparr> else s)))"

text \<open>The modal's Cancel button, and a press on its overlay, which only hides it.\<close>

definition cancel :: "app \<Rightarrow> app" where
  "cancel s = s\<lparr>isModalVisible := False, currentTitle := [], editingId := None\<rparr>"

definition dismiss :: "app \<Rightarrow> app" where
  "dismiss s = s\<lparr>isModalVisible := False\<rparr>"

section \<open>Runs of the component\<close>

datatype event =
    OpenAdd
  | OpenEdit jsstring
  | ChangeText jsstring
  | Save env
  | Cancel
  | Dismiss
  | Toggle "nat \<Rightarrow> int" jsstring
  | Delete platform bool jsstring
  | Clear platform bool
  | SetFilter Filter

fun step :: "event \<Rightarrow> app \<Rightarrow> app" where
  "step OpenAdd s = openAddModal s"
| "step (OpenEdit i) s = openEditModal i s"
| "step (ChangeText x) s = s\<lparr>currentTitle := x\<rparr>"
| "step (Save v) s = snd (saveTodo v s)"
| "step Cancel s = cancel s"
| "step Dismiss s = dismiss s"
| "step (Toggle now i) s = snd (toggleComplete now i s)"
| "step (Delete p ok i) s = snd (deleteTodo p ok i s)"
| "step (Clear p ok) s = snd (clearCompleted p ok s)"
| "step (SetFilter f) s = s\<lparr>filter_mode := f\<rparr>"

fun run :: "event list \<Rightarrow> app \<Rightarrow> app" where
  "run [] s = s"
| "run (e # es) s = run es (step e s)"

text \<open>
  A run generates fresh ids when every \<open>saveTodo\<close> that takes the creating branch
  builds an id that no todo of the collection has at that moment.
\<close>

definition creates :: "app \<Rightarrow> bool" where
  "creates s \<longleftrightarrow> trim (currentTitle s) \<noteq> [] \<and> \<not> truthy (editingId s)"

fun fresh_ids :: "event list \<Rightarrow> app \<Rightarrow> bool" where
  "fresh_ids [] s = True"
| "fresh_ids (Save v # es) s =
     ((if creates s then new_id v \<notin> set (map id_todo (todos s)) else True)
      \<and> fresh_ids es (step (Save v) s))"
| "fresh_ids (e # es) s = fresh_ids es (step e s)"

definition titles_trimmed :: "todo list \<Rightarrow> bool" where
  "titles_trimmed ts = list_all (\<lambda>t. title t \<noteq> [] \<and> trim (title t) = title t) ts"

text \<open>
  The invariant on identifiers that every run establishes: ids are built around a
  hyphen, so no todo has the empty id, and the session never edits the empty id. It is
  what makes \<open>if (editingId)\<close> tell an editing session from a creating one.
\<close>

definition ids_nonempty :: "app \<Rightarrow> bool" where
  "ids_nonempty s \<longleftrightarrow> list_all (\<lambda>t. id_todo t \<noteq> []) (todos s) \<and> editingId s \<noteq> Some []"

subsection \<open>Sample values\<close>

text \<open>
  An environment whose clock reads \<open>t\<close> throughout and whose random suffix is
  \<open>"a"\<close>; a todo titled \<open>"T"\<close>; a state with the editor open.
\<close>

definition steady :: "int \<Rightarrow> nat \<Rightarrow> int" where
  "steady t k = t"

definition clock_env :: "int \<Rightarrow> env" where
  "clock_env t = \<lparr>id_now = t, random36 = [0x61], created_now = t, updated_now = steady t\<rparr>"

definition item :: "jsstring \<Rightarrow> bool \<Rightarrow> todo" where
  "item i c = \<lparr>id_todo = i, title = [0x54], completed = c, createdAt = 1, updatedAt = None\<rparr>"

definition session :: "todo list \<Rightarrow> jsstring \<Rightarrow> jsstring option \<Rightarrow> app" where
  "session ts draft e =
     \<lparr>todos = ts, filter_mode = Filter_all, isModalVisible = True, currentTitle = draft,
      editingId = e\<rparr>"

section \<open>Auxiliary facts\<close>

lemmas string_defs = trim_def trimStart_def trimEnd_def white_space_def number_toString_def
  digits.simps new_id_def

lemmas sample_defs = steady_def clock_env_def item_def session_def init_def silent_def

lemmas handler_defs = saveTodo_def toggleComplete_def deleteTodo_def performDelete_def
  clearCompleted_def openAddModal_def openEditModal_def cancel_def dismiss_def truthy_def
  newTodo_def array_map_def creates_def Let_def

subsection \<open>Trimming\<close>

lemma rev_dropWhile_rev_head:
  assumes "xs = [] \<or> \<not> P (hd xs)"
  shows "rev (dropWhile P (rev xs)) = [] \<or> \<not> P (hd (rev (dropWhile P (rev xs))))"
proof -
  have "rev xs = takeWhile P (rev xs) @ dropWhile P (rev xs)" by simp
  then have "xs = rev (dropWhile P (rev xs)) @ rev (takeWhile P (rev xs))"
    by (metis rev_append rev_rev_ident)
  then have "rev (dropWhile P (rev xs)) \<noteq> [] \<Longrightarrow> hd xs = hd (rev (dropWhile P (rev xs)))"
    by (metis hd_append2)
  moreover have "xs = [] \<Longrightarrow> rev (dropWhile P (rev xs)) = []"
    by simp
  ultimately show ?thesis using assms by metis
qed

lemma trimStart_trim: "trimStart (trim s) = trim s"
  unfolding trim_def trimStart_def trimEnd_def
  using rev_dropWhile_rev_head [of "dropWhile white_space s" white_space]
  by (metis dropWhile_eq_self_iff dropWhile_eq_Nil_conv hd_dropWhile)

lemma trimEnd_idem: "trimEnd (trimEnd s) = trimEnd s"
  by (simp add: trimEnd_def)

lemma trim_idem: "trim (trim s) = trim s"
  by (metis trimStart_trim trim_def trimEnd_idem)

subsection \<open>Mapping with the index\<close>

lemma length_map_from: "length (map_from k f xs) = length xs"
  by (induction xs arbitrary: k) auto

lemma nth_map_from: "i < length xs \<Longrightarrow> map_from k f xs ! i = f (k + i) (xs ! i)"
proof (induction xs arbitrary: k i)
  case Nil then show ?case by simp
next
  case (Cons x xs)
  then show ?case by (cases i) auto
qed

lemma length_array_map: "length (array_map f xs) = length xs"
  by (simp add: array_map_def length_map_from)

lemma nth_array_map: "i < length xs \<Longrightarrow> array_map f xs ! i = f i (xs ! i)"
  by (simp add: array_map_def nth_map_from)

lemma map_map_from: "(\<And>k t. g (f k t) = g t) \<Longrightarrow> map g (map_from k f xs) = map g xs"
  by (induction xs arbitrary: k) auto

lemma map_array_map: "(\<And>k t. g (f k t) = g t) \<Longrightarrow> map g (array_map f xs) = map g xs"
  by (simp add: array_map_def map_map_from)

lemma list_all_map_from:
  "(\<And>k t. P t \<Longrightarrow> P (f k t)) \<Longrightarrow> list_all P xs \<Longrightarrow> list_all P (map_from k f xs)"
  by (induction xs arbitrary: k) auto

lemma list_all_array_map:
  "(\<And>k t. P t \<Longrightarrow> P (f k t)) \<Longrightarrow> list_all P xs \<Longrightarrow> list_all P (array_map f xs)"
  by (simp add: array_map_def list_all_map_from)

lemma map_from_id: "(\<And>k t. t \<in> set xs \<Longrightarrow> f k t = t) \<Longrightarrow> map_from k f xs = xs"
  by (induction xs arbitrary: k) auto

lemma array_map_id: "(\<And>k t. t \<in> set xs \<Longrightarrow> f k t = t) \<Longrightarrow> array_map f xs = xs"
  by (simp add: array_map_def map_from_id)

subsection \<open>Invariants of a step\<close>

lemma saveTodo_titles:
  assumes "titles_trimmed (todos s)"
  shows "titles_trimmed (todos (snd (saveTodo v s)))"
proof (cases "trim (currentTitle s) = []")
  case True
  then show ?thesis using assms by (simp add: saveTodo_def)
next
  case False
  let ?P = "\<lambda>t. title t \<noteq> [] \<and> trim (title t) = title t"
  let ?f = "\<lambda>k t. if Some (id_todo t) = editingId s
      then t\<lparr>title := trim (currentTitle s), updatedAt := Some (updated_now v k)\<rparr> else t"
  have "list_all ?P (array_map ?f (todos s))"
  proof (rule list_all_array_map)
    show "list_all ?P (todos s)" using assms by (simp add: titles_trimmed_def)
  next
    fix k t assume "?P t"
    then show "?P (?f k t)" using False by (simp add: trim_idem)
  qed
  then show ?thesis
    using assms False
    by (simp add: saveTodo_def Let_def titles_trimmed_def newTodo_def trim_idem)
qed

lemma toggleComplete_titles:
  assumes "titles_trimmed (todos s)"
  shows "titles_trimmed (todos (snd (toggleComplete now i s)))"
proof -
  let ?P = "\<lambda>t. title t \<noteq> [] \<and> trim (title t) = title t"
  let ?f = "\<lambda>k t. if id_todo t = i
      then t\<lparr>completed := \<not> completed t, updatedAt := Some (now k)\<rparr> else t"
  have "list_all ?P (array_map ?f (todos s))"
  proof (rule list_all_array_map)
    show "list_all ?P (todos s)" using assms by (simp add: titles_trimmed_def)
  next
    fix k t assume "?P t"
    then show "?P (?f k t)" by simp
  qed
  then show ?thesis by (simp add: toggleComplete_def titles_trimmed_def)
qed

lemma list_all_filter: "list_all P xs \<Longrightarrow> list_all P (filter Q xs)"
  by (induction xs) auto

lemma step_titles:
  assumes "titles_trimmed (todos s)"
  shows "titles_trimmed (todos (step e s))"
proof (cases e)
  case (Save v)
  then show ?thesis using assms by (simp add: saveTodo_titles)
next
  case (Toggle now i)
  then show ?thesis using assms by (simp add: toggleComplete_titles)
next
  case (OpenEdit i)
  then show ?thesis using assms by (simp add: openEditModal_def split: option.splits)
next
  case (Delete p ok i)
  then show ?thesis
    using assms
    by (cases p; simp add: deleteTodo_def performDelete_def titles_trimmed_def list_all_filter)
next
  case (Clear p ok)
  then show ?thesis
    using assms
    by (cases p; simp add: clearCompleted_def titles_trimmed_def list_all_filter)
qed (use assms in \<open>simp_all add: openAddModal_def cancel_def dismiss_def\<close>)

lemma run_titles: "titles_trimmed (todos s) \<Longrightarrow> titles_trimmed (todos (run es s))"
  by (induction es arbitrary: s) (simp_all add: step_titles)

lemma saveTodo_distinct:
  assumes "distinct (map id_todo (todos s))"
    and "creates s \<Longrightarrow> new_id v \<notin> set (map id_todo (todos s))"
  shows "distinct (map id_todo (todos (snd (saveTodo v s))))"
proof -
  have "map id_todo (array_map
          (\<lambda>k t. if Some (id_todo t) = editingId s
                 then t\<lparr>title := x, updatedAt := Some (updated_now v k)\<rparr> else t)
          (todos s)) = map id_todo (todos s)" for x
    by (rule map_array_map) simp
  then show ?thesis
    using assms by (simp add: saveTodo_def Let_def creates_def newTodo_def)
qed

lemma toggleComplete_ids:
  "map id_todo (todos (snd (toggleComplete now i s))) = map id_todo (todos s)"
proof -
  have "map id_todo (array_map
          (\<lambda>k t. if id_todo t = i
                 then t\<lparr>completed := \<not> completed t, updatedAt := Some (now k)\<rparr> else t)
          (todos s)) = map id_todo (todos s)"
    by (rule map_array_map) simp
  then show ?thesis by (simp add: toggleComplete_def)
qed

lemma step_distinct:
  assumes "distinct (map id_todo (todos s))" and "fresh_ids [e] s"
  shows "distinct (map id_todo (todos (step e s)))"
proof (cases e)
  case (Save v)
  then show ?thesis using assms saveTodo_distinct [of s v] by (simp split: if_splits)
next
  case (Toggle now i)
  then show ?thesis using assms by (simp add: toggleComplete_ids)
next
  case (OpenEdit i)
  then show ?thesis using assms by (simp add: openEditModal_def split: option.splits)
next
  case (Delete p ok i)
  then show ?thesis
    using assms by (cases p; simp add: deleteTodo_def performDelete_def distinct_map_filter)
next
  case (Clear p ok)
  then show ?thesis
    using assms by (cases p; simp add: clearCompleted_def distinct_map_filter)
qed (use assms in \<open>simp_all add: openAddModal_def cancel_def dismiss_def\<close>)

lemma fresh_ids_Cons: "fresh_ids (e # es) s \<longleftrightarrow> fresh_ids [e] s \<and> fresh_ids es (step e s)"
  by (cases e) simp_all

lemma run_distinct:
  "distinct (map id_todo (todos s)) \<Longrightarrow> fresh_ids es s \<Longrightarrow>
   distinct (map id_todo (todos (run es s)))"
proof (induction es arbitrary: s)
  case Nil
  then show ?case by simp
next
  case (Cons e es)
  from Cons.prems(2) have "fresh_ids [e] s" and "fresh_ids es (step e s)"
    by (simp_all only: fresh_ids_Cons [of e es s])
  with Cons.IH [of "step e s"] Cons.prems(1) show ?case
    by (simp add: step_distinct)
qed

lemma new_id_nonempty: "new_id v \<noteq> []"
  by (simp add: new_id_def)

lemma step_ids_nonempty: "ids_nonempty s \<Longrightarrow> ids_nonempty (step e s)"
proof (cases e)
  case (Save v)
  assume a: "ids_nonempty s"
  have "list_all (\<lambda>t. id_todo t \<noteq> []) (array_map
          (\<lambda>k t. if Some (id_todo t) = editingId s
                 then t\<lparr>title := x, updatedAt := Some (updated_now v k)\<rparr> else t)
          (todos s))" for x
    using a by (intro list_all_array_map) (auto simp: ids_nonempty_def)
  then show ?thesis
    using a Save by (simp add: ids_nonempty_def saveTodo_def Let_def newTodo_def new_id_nonempty)
next
  case (Toggle now i)
  assume a: "ids_nonempty s"
  have "list_all (\<lambda>t. id_todo t \<noteq> []) (array_map
          (\<lambda>k t. if id_todo t = i
                 then t\<lparr>completed := \<not> completed t, updatedAt := Some (now k)\<rparr> else t)
          (todos s))"
    using a by (intro list_all_array_map) (auto simp: ids_nonempty_def)
  then show ?thesis
    using a Toggle by (simp add: ids_nonempty_def toggleComplete_def)
next
  case (OpenEdit i)
  assume a: "ids_nonempty s"
  show ?thesis
  proof (cases "find (\<lambda>x. id_todo x = i) (todos s)")
    case None
    then show ?thesis using a OpenEdit by (simp add: openEditModal_def)
  next
    case (Some t)
    then have "t \<in> set (todos s)" and "id_todo t = i"
      by (auto simp: find_Some_iff)
    then have "i \<noteq> []" using a by (auto simp: ids_nonempty_def list_all_iff)
    then show ?thesis using a OpenEdit Some by (simp add: openEditModal_def ids_nonempty_def)
  qed
next
  case (Delete p ok i)
  assume "ids_nonempty s"
  then show ?thesis
    using Delete
    by (cases p; simp add: deleteTodo_def performDelete_def ids_nonempty_def list_all_filter)
next
  case (Clear p ok)
  assume "ids_nonempty s"
  then show ?thesis
    using Clear by (cases p; simp add: clearCompleted_def ids_nonempty_def list_all_filter)
qed (simp_all add: openAddModal_def cancel_def dismiss_def ids_nonempty_def)

lemma run_ids_nonempty: "ids_nonempty (run es init)"
proof -
  have "ids_nonempty s \<Longrightarrow> ids_nonempty (run es s)" for s
    by (induction es arbitrary: s) (simp_all add: step_ids_nonempty)
  then show ?thesis by (simp add: ids_nonempty_def init_def)
qed

section \<open>The claims\<close>

subsection \<open>C1: creating a todo\<close>

text \<open>
  Claim C1. Submitting from a creating session (\<open>editingId\<close> falsy) trims the draft.
  If nothing is left, the \<open>'Empty title'\<close> notice is raised and the state, hence the
  collection, is unchanged. Otherwise a todo with the trimmed title, \<open>completed = false\<close>,
  \<open>createdAt\<close> the clock reading and no \<open>updatedAt\<close> becomes element 0, the former
  collection follows it, and the length grows by exactly one.
\<close>

theorem create_prepends:
  assumes "\<not> truthy (editingId s)"
  shows "(trim (currentTitle s) = [] \<longrightarrow>
            alert (fst (saveTodo v s)) = Some EmptyTitle \<and> snd (saveTodo v s) = s)
       \<and> (trim (currentTitle s) \<noteq> [] \<longrightarrow>
            alert (fst (saveTodo v s)) = None
          \<and> length (todos (snd (saveTodo v s))) = Suc (length (todos s))
          \<and> tl (todos (snd (saveTodo v s))) = todos s
          \<and> title (todos (snd (saveTodo v s)) ! 0) = trim (currentTitle s)
          \<and> completed (todos (snd (saveTodo v s)) ! 0) = False
          \<and> createdAt (todos (snd (saveTodo v s)) ! 0) = created_now v
          \<and> updatedAt (todos (snd (saveTodo v s)) ! 0) = None)"
  using assms by (simp add: saveTodo_def Let_def newTodo_def silent_def)

text \<open>
  At the draft \<open>" T "\<close> the todo \<open>"T"\<close> is prepended; at the draft of two spaces the
  notice is raised and nothing changes.
\<close>

theorem create_prepends_witness:
  "\<not> truthy (editingId (session [item [0x58] True] [0x20, 0x54, 0x20] None))
   \<and> trim (currentTitle (session [item [0x58] True] [0x20, 0x54, 0x20] None)) \<noteq> []
   \<and> todos (snd (saveTodo (clock_env 5) (session [item [0x58] True] [0x20, 0x54, 0x20] None)))
       = [\<lparr>id_todo = [0x35, 0x2D, 0x61], title = [0x54], completed = False, createdAt = 5,
           updatedAt = None\<rparr>, item [0x58] True]
   \<and> trim (currentTitle (session [item [0x58] True] [0x20, 0x20] None)) = []
   \<and> alert (fst (saveTodo (clock_env 5) (session [item [0x58] True] [0x20, 0x20] None)))
       = Some EmptyTitle
   \<and> todos (snd (saveTodo (clock_env 5) (session [item [0x58] True] [0x20, 0x20] None)))
       = [item [0x58] True]"
  using create_prepends [of "session [item [0x58] True] [0x20, 0x54, 0x20] None" "clock_env 5"]
    create_prepends [of "session [item [0x58] True] [0x20, 0x20] None" "clock_env 5"]
  by (simp add: string_defs sample_defs handler_defs)

subsection \<open>C2: deleting an id that is absent\<close>

text \<open>
  Claim C2, as the code has it. \<open>deleteTodo\<close> filters the collection and reports nothing:
  for an id that no todo has, a confirmed or a declined delete leaves the state unchanged
  and raises no notice. After a confirmed delete the id is absent, and deleting it again
  is the same silent no-op. The source has no \<open>NotFound\<close>.
\<close>

theorem delete_absent_silent:
  "(i \<notin> set (map id_todo (todos s)) \<longrightarrow> deleteTodo p ok i s = (silent, s))
   \<and> i \<notin> set (map id_todo (todos (snd (deleteTodo p True i s))))
   \<and> deleteTodo p' ok' i (snd (deleteTodo p True i s)) = (silent, snd (deleteTodo p True i s))"
proof -
  have a: "j \<notin> set (map id_todo (todos t)) \<Longrightarrow> performDelete j t = t" for j t
  proof -
    assume "j \<notin> set (map id_todo (todos t))"
    then have "filter (\<lambda>x. id_todo x \<noteq> j) (todos t) = todos t"
      by (auto simp: filter_id_conv)
    then show ?thesis by (simp add: performDelete_def)
  qed
  have b: "i \<notin> set (map id_todo (todos (performDelete i s)))"
    by (auto simp: performDelete_def)
  show ?thesis
    using a [of i s] a [OF b] b
    by (cases p; cases p'; simp add: deleteTodo_def)
qed

text \<open>
  Deleting \<open>"Y"\<close> from a collection that holds only \<open>"X"\<close>.
\<close>

theorem delete_absent_silent_witness:
  "[0x59] \<notin> set (map id_todo (todos (session [item [0x58] False] [] None)))
   \<and> deleteTodo Native True [0x59] (session [item [0x58] False] [] None)
       = (silent, session [item [0x58] False] [] None)"
  using delete_absent_silent [of "[0x59]" "session [item [0x58] False] [] None" Native True]
  by (simp add: sample_defs)

text \<open>
  The claim as stated fails: deleting from the empty collection does not report
  \<open>NotFound\<close>, and neither does deleting \<open>"X"\<close> a second time.
\<close>

theorem delete_absent_counterexample:
  "alert (fst (deleteTodo Native True [0x58] init)) \<noteq> Some NotFound
   \<and> todos (snd (deleteTodo Web True [0x58] (session [item [0x58] False] [] None))) = []
   \<and> fst (deleteTodo Web True [0x58]
        (snd (deleteTodo Web True [0x58] (session [item [0x58] False] [] None)))) = silent
   \<and> alert (fst (deleteTodo Web True [0x58]
        (snd (deleteTodo Web True [0x58] (session [item [0x58] False] [] None)))))
       \<noteq> Some NotFound"
  by (simp add: sample_defs handler_defs)

subsection \<open>C3: submitting an edit for an id that is absent\<close>

text \<open>
  Claim C3, as the code has it. In an editing session for an id that no todo has, a submit
  whose draft trims to nothing raises \<open>'Empty title'\<close> and changes nothing; any other
  submit raises no notice, leaves the collection as it is (no todo is created or brought
  back), closes the editor, clears the draft and resets \<open>editingId\<close>. The source has no
  \<open>NotFound\<close>.
\<close>

theorem update_absent_silent:
  assumes "editingId s = Some i" and "i \<noteq> []" and "i \<notin> set (map id_todo (todos s))"
  shows "(trim (currentTitle s) = [] \<longrightarrow>
            saveTodo v s = (\<lparr>returned = Undefined, alert = Some EmptyTitle\<rparr>, s))
       \<and> (trim (currentTitle s) \<noteq> [] \<longrightarrow>
            saveTodo v s =
              (silent, s\<lparr>isModalVisible := False, currentTitle := [], editingId := None\<rparr>))"
proof -
  have "array_map
          (\<lambda>k t. if Some (id_todo t) = editingId s
                 then t\<lparr>title := x, updatedAt := Some (updated_now v k)\<rparr> else t)
          (todos s) = todos s" for x
    using assms by (intro array_map_id) auto
  then show ?thesis
    using assms by (simp add: saveTodo_def Let_def truthy_def)
qed

text \<open>
  Editing \<open>"X"\<close> while the collection holds only \<open>"Y"\<close>.
\<close>

theorem update_absent_silent_witness:
  "editingId (session [item [0x59] False] [0x54] (Some [0x58])) = Some [0x58]
   \<and> [0x58] \<noteq> ([] :: jsstring)
   \<and> [0x58] \<notin> set (map id_todo (todos (session [item [0x59] False] [0x54] (Some [0x58]))))
   \<and> trim (currentTitle (session [item [0x59] False] [0x54] (Some [0x58]))) \<noteq> []
   \<and> saveTodo (clock_env 5) (session [item [0x59] False] [0x54] (Some [0x58]))
       = (silent, (session [item [0x59] False] [] None)\<lparr>isModalVisible := False\<rparr>)"
  using update_absent_silent
    [of "session [item [0x59] False] [0x54] (Some [0x58])" "[0x58]" "clock_env 5"]
  by (simp add: string_defs sample_defs)

text \<open>
  The claim as stated fails: with an empty collection, submitting the draft \<open>"T"\<close> for
  \<open>"X"\<close> raises no notice at all.
\<close>

theorem update_absent_counterexample:
  "alert (fst (saveTodo (clock_env 5) (session [] [0x54] (Some [0x58])))) \<noteq> Some NotFound
   \<and> fst (saveTodo (clock_env 5) (session [] [0x54] (Some [0x58]))) = silent"
  by (simp add: string_defs sample_defs handler_defs)

subsection \<open>C4: clearing the completed todos\<close>

text \<open>
  Claim C4, as the code has it. \<open>clearCompleted\<close> returns \<open>undefined\<close> and raises no
  notice. Once confirmed it keeps exactly the todos that are not completed, in their
  order; the length drops by the number of completed todos. With no completed todo it
  changes nothing, and a second call right after a confirmed one changes nothing.
\<close>

theorem clearCompleted_removes:
  "fst (clearCompleted p ok s) = silent
   \<and> todos (snd (clearCompleted p True s)) = filter (\<lambda>t. \<not> completed t) (todos s)
   \<and> subseq (todos (snd (clearCompleted p True s))) (todos s)
   \<and> list_all (\<lambda>t. \<not> completed t) (todos (snd (clearCompleted p True s)))
   \<and> length (todos s) - length (todos (snd (clearCompleted p True s)))
       = length (filter (\<lambda>t. completed t) (todos s))
   \<and> (\<not> list_ex (\<lambda>t. completed t) (todos s) \<longrightarrow> clearCompleted p ok s = (silent, s))
   \<and> clearCompleted p' ok' (snd (clearCompleted p True s))
       = (silent, snd (clearCompleted p True s))"
proof -
  let ?s' = "snd (clearCompleted p True s)"
  have none: "\<not> list_ex (\<lambda>t. completed t) (todos t) \<Longrightarrow> clearCompleted q b t = (silent, t)"
    for q b t
    by (simp add: clearCompleted_def)
  have keep: "\<not> list_ex (\<lambda>t. completed t) (todos s) \<Longrightarrow>
      filter (\<lambda>t. \<not> completed t) (todos s) = todos s"
    by (auto simp: list_ex_iff filter_id_conv)
  have eq: "todos ?s' = filter (\<lambda>t. \<not> completed t) (todos s)"
    using keep by (cases p; simp add: clearCompleted_def)
  have fst: "fst (clearCompleted p ok s) = silent"
    by (cases p; simp add: clearCompleted_def)
  have after: "\<not> list_ex (\<lambda>t. completed t) (todos ?s')"
    unfolding eq by (simp add: list_ex_iff)
  have len: "length (todos s) - length (todos ?s') = length (filter (\<lambda>t. completed t) (todos s))"
    unfolding eq using sum_length_filter_compl [of "\<lambda>t. completed t" "todos s"] by simp
  have "list_all (\<lambda>t. \<not> completed t) (todos ?s')"
    unfolding eq by (simp add: list_all_iff)
  moreover have "subseq (todos ?s') (todos s)"
    unfolding eq by simp
  ultimately show ?thesis
    using eq fst len none [of s p ok] none [OF after, of p' ok'] by simp
qed

text \<open>
  A collection without completed todos is left alone; from \<open>[X done, Y, Z done]\<close> only
  \<open>Y\<close> remains.
\<close>

theorem clearCompleted_removes_witness:
  "\<not> list_ex (\<lambda>t. completed t) (todos (session [item [0x58] False] [] None))
   \<and> clearCompleted Native True (session [item [0x58] False] [] None)
       = (silent, session [item [0x58] False] [] None)
   \<and> todos (snd (clearCompleted Native True
        (session [item [0x58] True, item [0x59] False, item [0x5A] True] [] None)))
       = [item [0x59] False]"
  using clearCompleted_removes [of Native True "session [item [0x58] False] [] None"]
    clearCompleted_removes [of Native True
      "session [item [0x58] True, item [0x59] False, item [0x5A] True] [] None"]
  by (simp add: sample_defs)

text \<open>
  The claim as stated fails: one todo is removed, and the call returns \<open>undefined\<close>, not
  the number 1.
\<close>

theorem clearCompleted_counterexample:
  "length (todos (session [item [0x58] True] [] None))
     - length (todos (snd (clearCompleted Web True (session [item [0x58] True] [] None)))) = 1
   \<and> returned (fst (clearCompleted Web True (session [item [0x58] True] [] None))) \<noteq> Number 1
   \<and> returned (fst (clearCompleted Web True (session [item [0x58] True] [] None))) = Undefined"
  by (simp add: sample_defs handler_defs)

subsection \<open>C5: toggling completion\<close>

text \<open>
  Claim C5, as the code has it. For a todo at position \<open>k\<close> whose id is toggled,
  \<open>toggleComplete\<close> flips \<open>completed\<close> and sets \<open>updatedAt\<close> to the clock reading of
  the call, leaving the other fields and the length alone. Toggling twice restores
  \<open>completed\<close>. \<open>updatedAt\<close> after the second call is greater than after the first
  exactly when the clock reading of the second call is greater.
\<close>

theorem toggleComplete_flips:
  assumes "k < length (todos s)" and "id_todo (todos s ! k) = i"
  shows "fst (toggleComplete now1 i s) = silent
   \<and> length (todos (snd (toggleComplete now1 i s))) = length (todos s)
   \<and> todos (snd (toggleComplete now1 i s)) ! k
       = (todos s ! k)\<lparr>completed := \<not> completed (todos s ! k), updatedAt := Some (now1 k)\<rparr>
   \<and> completed (todos (snd (toggleComplete now2 i (snd (toggleComplete now1 i s)))) ! k)
       = completed (todos s ! k)
   \<and> updatedAt (todos (snd (toggleComplete now2 i (snd (toggleComplete now1 i s)))) ! k)
       = Some (now2 k)
   \<and> (the (updatedAt (todos (snd (toggleComplete now1 i s)) ! k))
        < the (updatedAt (todos (snd (toggleComplete now2 i (snd (toggleComplete now1 i s)))) ! k))
       \<longleftrightarrow> now1 k < now2 k)"
  using assms
  by (simp add: toggleComplete_def length_array_map nth_array_map)

text \<open>
  Toggling \<open>"X"\<close> at clock 1 and again at clock 2.
\<close>

theorem toggleComplete_flips_witness:
  "0 < length (todos (session [item [0x58] False] [] None))
   \<and> id_todo (todos (session [item [0x58] False] [] None) ! 0) = [0x58]
   \<and> todos (snd (toggleComplete (steady 1) [0x58] (session [item [0x58] False] [] None))) ! 0
       = (item [0x58] True)\<lparr>updatedAt := Some 1\<rparr>
   \<and> completed (todos (snd (toggleComplete (steady 2) [0x58]
        (snd (toggleComplete (steady 1) [0x58] (session [item [0x58] False] [] None))))) ! 0)
       = False
   \<and> the (updatedAt (todos (snd (toggleComplete (steady 1) [0x58]
        (session [item [0x58] False] [] None))) ! 0))
       < the (updatedAt (todos (snd (toggleComplete (steady 2) [0x58]
          (snd (toggleComplete (steady 1) [0x58] (session [item [0x58] False] [] None))))) ! 0))"
  using toggleComplete_flips
    [of 0 "session [item [0x58] False] [] None" "[0x58]" "steady 1" "steady 2"]
  by (simp add: sample_defs)

text \<open>
  The claim as stated fails: two toggles within the same clock reading leave
  \<open>updatedAt\<close> equal, not strictly greater.
\<close>

theorem toggleComplete_counterexample:
  "updatedAt (todos (snd (toggleComplete (steady 5) [0x58] (session [item [0x58] False] [] None))) ! 0)
     = Some 5
   \<and> updatedAt (todos (snd (toggleComplete (steady 5) [0x58]
        (snd (toggleComplete (steady 5) [0x58] (session [item [0x58] False] [] None))))) ! 0)
     = Some 5
   \<and> \<not> the (updatedAt (todos (snd (toggleComplete (steady 5) [0x58]
          (session [item [0x58] False] [] None))) ! 0))
       < the (updatedAt (todos (snd (toggleComplete (steady 5) [0x58]
          (snd (toggleComplete (steady 5) [0x58] (session [item [0x58] False] [] None))))) ! 0))"
  by (simp add: sample_defs handler_defs)

subsection \<open>C6: the filter projection\<close>

text \<open>
  Claim C6. Under \<open>all\<close> the projection is the collection itself; under \<open>active\<close> and
  \<open>completed\<close> it is the subsequence, in order, of the todos that are not completed
  and of those that are. As sets the two cover the collection and are disjoint. The
  projection is a function of the collection and the filter: it has no state to change.
\<close>

theorem filteredTodos_partition:
  "filteredTodos Filter_all c = c
   \<and> filteredTodos Filter_active c = filter (\<lambda>t. \<not> completed t) c
   \<and> filteredTodos Filter_completed c = filter (\<lambda>t. completed t) c
   \<and> subseq (filteredTodos Filter_active c) c
   \<and> subseq (filteredTodos Filter_completed c) c
   \<and> set (filteredTodos Filter_active c) = {t. t \<in> set c \<and> \<not> completed t}
   \<and> set (filteredTodos Filter_completed c) = {t. t \<in> set c \<and> completed t}
   \<and> set (filteredTodos Filter_active c) \<union> set (filteredTodos Filter_completed c)
       = set (filteredTodos Filter_all c)
   \<and> set (filteredTodos Filter_active c) \<inter> set (filteredTodos Filter_completed c) = {}"
  by (auto simp: filteredTodos_def)

subsection \<open>C7: the frame of a title update\<close>

text \<open>
  Claim C7, as the code has it. In an editing session for the id \<open>i\<close> with a draft
  that does not trim to nothing, a submit keeps the length of the collection, and at
  every position \<open>k\<close>: every todo whose id is \<open>i\<close> gets the trimmed draft as title
  and the clock reading as \<open>updatedAt\<close>, its id, \<open>completed\<close> and \<open>createdAt\<close>
  staying as they are; a todo with another id is unchanged. The callback of \<open>map\<close>
  selects by id, so every other todo is unchanged only when no other todo shares the id.
\<close>

theorem updateTitle_frame:
  assumes "editingId s = Some i" and "i \<noteq> []" and "trim (currentTitle s) \<noteq> []"
    and "k < length (todos s)"
  shows "length (todos (snd (saveTodo v s))) = length (todos s)
   \<and> (id_todo (todos s ! k) = i \<longrightarrow>
        todos (snd (saveTodo v s)) ! k
          = (todos s ! k)\<lparr>title := trim (currentTitle s), updatedAt := Some (updated_now v k)\<rparr>
        \<and> id_todo (todos (snd (saveTodo v s)) ! k) = i
        \<and> completed (todos (snd (saveTodo v s)) ! k) = completed (todos s ! k)
        \<and> createdAt (todos (snd (saveTodo v s)) ! k) = createdAt (todos s ! k))
   \<and> (id_todo (todos s ! k) \<noteq> i \<longrightarrow> todos (snd (saveTodo v s)) ! k = todos s ! k)
   \<and> (distinct (map id_todo (todos s)) \<and> j < length (todos s) \<and> j \<noteq> k
        \<and> id_todo (todos s ! j) = i \<longrightarrow> todos (snd (saveTodo v s)) ! k = todos s ! k)"
proof -
  have "distinct (map id_todo (todos s)) \<Longrightarrow> j < length (todos s) \<Longrightarrow> j \<noteq> k \<Longrightarrow>
     id_todo (todos s ! j) = i \<Longrightarrow> id_todo (todos s ! k) \<noteq> i"
    using assms(4) by (metis distinct_conv_nth length_map nth_map)
  then show ?thesis
    using assms
    by (auto simp add: saveTodo_def Let_def truthy_def length_array_map nth_array_map)
qed

text \<open>
  Retitling \<open>"X"\<close> to \<open>"N"\<close> in the collection \<open>[X, Y]\<close> at clock 7.
\<close>

theorem updateTitle_frame_witness:
  "editingId (session [item [0x58] True, item [0x59] False] [0x20, 0x4E] (Some [0x58]))
     = Some [0x58]
   \<and> [0x58] \<noteq> ([] :: jsstring)
   \<and> trim (currentTitle (session [item [0x58] True, item [0x59] False] [0x20, 0x4E]
        (Some [0x58]))) \<noteq> []
   \<and> todos (snd (saveTodo (clock_env 7)
        (session [item [0x58] True, item [0x59] False] [0x20, 0x4E] (Some [0x58]))))
       = [(item [0x58] True)\<lparr>title := [0x4E], updatedAt := Some 7\<rparr>, item [0x59] False]"
  using updateTitle_frame
    [of "session [item [0x58] True, item [0x59] False] [0x20, 0x4E] (Some [0x58])" "[0x58]" 0
      "clock_env 7" 1]
    updateTitle_frame
    [of "session [item [0x58] True, item [0x59] False] [0x20, 0x4E] (Some [0x58])" "[0x58]" 1
      "clock_env 7" 0]
  by (simp add: string_defs sample_defs handler_defs)

text \<open>
  The claim as stated fails: after two creations that read the same clock and draw the
  same random suffix, both todos have the id \<open>"5-a"\<close>; editing that id and submitting
  the draft \<open>"N"\<close> retitles both, \<open>"B"\<close> and \<open>"A"\<close> alike.
\<close>

theorem updateTitle_frame_counterexample:
  "editingId (run [OpenAdd, ChangeText [0x41], Save (clock_env 5), OpenAdd, ChangeText [0x42],
      Save (clock_env 5), OpenEdit [0x35, 0x2D, 0x61], ChangeText [0x4E]] init)
     = Some [0x35, 0x2D, 0x61]
   \<and> map id_todo (todos (run [OpenAdd, ChangeText [0x41], Save (clock_env 5), OpenAdd,
      ChangeText [0x42], Save (clock_env 5), OpenEdit [0x35, 0x2D, 0x61], ChangeText [0x4E]]
      init)) = [[0x35, 0x2D, 0x61], [0x35, 0x2D, 0x61]]
   \<and> map title (todos (run [OpenAdd, ChangeText [0x41], Save (clock_env 5), OpenAdd,
      ChangeText [0x42], Save (clock_env 5), OpenEdit [0x35, 0x2D, 0x61], ChangeText [0x4E]]
      init)) = [[0x42], [0x41]]
   \<and> map title (todos (snd (saveTodo (clock_env 7)
      (run [OpenAdd, ChangeText [0x41], Save (clock_env 5), OpenAdd, ChangeText [0x42],
        Save (clock_env 5), OpenEdit [0x35, 0x2D, 0x61], ChangeText [0x4E]] init))))
     = [[0x4E], [0x4E]]"
  by (simp add: string_defs sample_defs handler_defs)

subsection \<open>C8: the invariant of the collection\<close>

text \<open>
  Claim C8, as the code has it. After any run of events from the initial state every todo
  has a non-empty title that equals its own trimmed form. No two todos share an id
  provided every creating \<open>saveTodo\<close> of the run built an id that the collection did not
  hold: the id comes from the clock and a random suffix and is not checked against the
  collection.
\<close>

theorem run_invariant:
  "titles_trimmed (todos (run es init))
   \<and> (fresh_ids es init \<longrightarrow> distinct (map id_todo (todos (run es init))))"
  using run_titles [of init es] run_distinct [of init es]
  by (simp add: init_def titles_trimmed_def)

text \<open>
  Two creations at clocks 5 and 6, a toggle and a confirmed clear.
\<close>

theorem run_invariant_witness:
  "fresh_ids [OpenAdd, ChangeText [0x20, 0x41], Save (clock_env 5), OpenAdd, ChangeText [0x42],
      Save (clock_env 6), Toggle (steady 7) [0x35, 0x2D, 0x61], Clear Web True] init
   \<and> titles_trimmed (todos (run [OpenAdd, ChangeText [0x20, 0x41], Save (clock_env 5), OpenAdd,
      ChangeText [0x42], Save (clock_env 6), Toggle (steady 7) [0x35, 0x2D, 0x61],
      Clear Web True] init))
   \<and> distinct (map id_todo (todos (run [OpenAdd, ChangeText [0x20, 0x41], Save (clock_env 5),
      OpenAdd, ChangeText [0x42], Save (clock_env 6), Toggle (steady 7) [0x35, 0x2D, 0x61],
      Clear Web True] init)))"
  using run_invariant [of "[OpenAdd, ChangeText [0x20, 0x41], Save (clock_env 5), OpenAdd,
      ChangeText [0x42], Save (clock_env 6), Toggle (steady 7) [0x35, 0x2D, 0x61],
      Clear Web True]"]
  by (simp add: string_defs sample_defs handler_defs)

text \<open>
  The claim as stated fails: two creations that read the same clock and draw the same
  random suffix give two todos the id \<open>"5-a"\<close>.
\<close>

theorem run_invariant_counterexample:
  "map id_todo (todos (run [ChangeText [0x41], Save (clock_env 5), ChangeText [0x42],
      Save (clock_env 5)] init)) = [[0x35, 0x2D, 0x61], [0x35, 0x2D, 0x61]]
   \<and> \<not> distinct (map id_todo (todos (run [ChangeText [0x41], Save (clock_env 5),
        ChangeText [0x42], Save (clock_env 5)] init)))"
  by (simp add: string_defs sample_defs handler_defs)

subsection \<open>C9: submitting an empty draft\<close>

text \<open>
  Claim C9. In any session, creating or editing, a submit whose draft trims to nothing
  raises the \<open>'Empty title'\<close> notice and returns the state as it was: the editor stays
  open, the draft and \<open>editingId\<close> stay, the collection is untouched.
\<close>

theorem saveTodo_empty_title:
  assumes "trim (currentTitle s) = []"
  shows "saveTodo v s = (\<lparr>returned = Undefined, alert = Some EmptyTitle\<rparr>, s)"
  using assms by (simp add: saveTodo_def)

text \<open>
  An editing session for \<open>"X"\<close> whose draft is a space and a tab, and a creating
  session whose draft is empty.
\<close>

theorem saveTodo_empty_title_witness:
  "trim (currentTitle (session [item [0x58] False] [0x20, 0x09] (Some [0x58]))) = []
   \<and> saveTodo (clock_env 5) (session [item [0x58] False] [0x20, 0x09] (Some [0x58]))
       = (\<lparr>returned = Undefined, alert = Some EmptyTitle\<rparr>,
          session [item [0x58] False] [0x20, 0x09] (Some [0x58]))
   \<and> trim (currentTitle (session [] [] None)) = []
   \<and> saveTodo (clock_env 5) (session [] [] None)
       = (\<lparr>returned = Undefined, alert = Some EmptyTitle\<rparr>, session [] [] None)"
  using saveTodo_empty_title
    [of "session [item [0x58] False] [0x20, 0x09] (Some [0x58])" "clock_env 5"]
    saveTodo_empty_title [of "session [] [] None" "clock_env 5"]
  by (simp add: string_defs sample_defs)

subsection \<open>C10: opening the editor for an id that is absent\<close>

text \<open>
  Claim C10. For an id that no todo of the collection has, \<open>openEditModal\<close> returns the
  state as it was: the editor is not opened, and \<open>editingId\<close>, the draft and the
  collection are unchanged.
\<close>

theorem openEditModal_absent:
  assumes "i \<notin> set (map id_todo (todos s))"
  shows "openEditModal i s = s"
proof -
  have "find (\<lambda>x. id_todo x = i) (todos s) = None"
    using assms by (auto simp: find_None_iff)
  then show ?thesis by (simp add: openEditModal_def)
qed

text \<open>
  Asking to edit \<open>"Y"\<close> while the collection holds only \<open>"X"\<close>.
\<close>

theorem openEditModal_absent_witness:
  "[0x59] \<notin> set (map id_todo (todos (session [item [0x58] False] [0x41] None)))
   \<and> openEditModal [0x59] (session [item [0x58] False] [0x41] None)
       = session [item [0x58] False] [0x41] None"
  using openEditModal_absent [of "[0x59]" "session [item [0x58] False] [0x41] None"]
  by (simp add: sample_defs)

end
